theory Spec2Isabelle
  imports Complex_Main "HOL-Library.Multiset"
begin

section \<open>JavaScript numbers\<close>

text \<open>
  The scorer computes with JavaScript numbers. A division by zero does not raise there: it
  yields an infinity or NaN, and these values propagate through the arithmetic. The model
  keeps the four kinds of value apart. Finite values are exact reals: the rounding of IEEE
  doubles is not modelled, and neither is the sign of zero (every zero is \<open>+0\<close>).
\<close>

datatype jsnum = Fin real | PosInf | NegInf | NaN

fun jneg :: "jsnum \<Rightarrow> jsnum" where
  "jneg (Fin x) = Fin (- x)"
| "jneg PosInf = NegInf"
| "jneg NegInf = PosInf"
| "jneg NaN = NaN"

fun jadd :: "jsnum \<Rightarrow> jsnum \<Rightarrow> jsnum" where
  "jadd (Fin x) (Fin y) = Fin (x + y)"
| "jadd (Fin x) PosInf = PosInf"
| "jadd (Fin x) NegInf = NegInf"
| "jadd PosInf (Fin y) = PosInf"
| "jadd PosInf PosInf = PosInf"
| "jadd PosInf NegInf = NaN"
| "jadd NegInf (Fin y) = NegInf"
| "jadd NegInf NegInf = NegInf"
| "jadd NegInf PosInf = NaN"
| "jadd NaN b = NaN"
| "jadd a NaN = NaN"

definition jsub :: "jsnum \<Rightarrow> jsnum \<Rightarrow> jsnum" where
  "jsub a b = jadd a (jneg b)"

fun jsign :: "jsnum \<Rightarrow> int" where
  "jsign (Fin x) = (if x < 0 then - 1 else if x = 0 then 0 else 1)"
| "jsign PosInf = 1"
| "jsign NegInf = - 1"
| "jsign NaN = 0"

definition of_sign :: "int \<Rightarrow> jsnum" where
  "of_sign s = (if s = 0 then NaN else if 0 < s then PosInf else NegInf)"

fun jmul :: "jsnum \<Rightarrow> jsnum \<Rightarrow> jsnum" where
  "jmul (Fin x) (Fin y) = Fin (x * y)"
| "jmul NaN b = NaN"
| "jmul a NaN = NaN"
| "jmul a b = of_sign (jsign a * jsign b)"

fun jdiv :: "jsnum \<Rightarrow> jsnum \<Rightarrow> jsnum" where
  "jdiv (Fin x) (Fin y) =
     (if y = 0 then of_sign (jsign (Fin x)) else Fin (x / y))"
| "jdiv NaN b = NaN"
| "jdiv a NaN = NaN"
| "jdiv (Fin x) b = Fin 0"
| "jdiv a (Fin y) = of_sign (jsign a * (if y < 0 then - 1 else 1))"
| "jdiv a b = NaN"

text \<open>\<open>Math.log\<close>: minus infinity at zero, NaN below it.\<close>

fun jlog :: "jsnum \<Rightarrow> jsnum" where
  "jlog (Fin x) = (if x < 0 then NaN else if x = 0 then NegInf else Fin (ln x))"
| "jlog PosInf = PosInf"
| "jlog NegInf = NaN"
| "jlog NaN = NaN"

text \<open>The comparisons \<open>a < b\<close> and \<open>a > 0\<close>; both are false as soon as a NaN is involved.\<close>

fun jless :: "jsnum \<Rightarrow> jsnum \<Rightarrow> bool" where
  "jless (Fin x) (Fin y) = (x < y)"
| "jless NaN b = False"
| "jless a NaN = False"
| "jless a NegInf = False"
| "jless PosInf b = False"
| "jless NegInf b = True"
| "jless a PosInf = True"

definition jpos :: "jsnum \<Rightarrow> bool" where
  "jpos a = jless (Fin 0) a"

text \<open>A finite value within the closed interval from \<open>lo\<close> to \<open>hi\<close>.\<close>

fun jwithin :: "real \<Rightarrow> real \<Rightarrow> jsnum \<Rightarrow> bool" where
  "jwithin lo hi (Fin x) = (lo \<le> x \<and> x \<le> hi)"
| "jwithin lo hi PosInf = False"
| "jwithin lo hi NegInf = False"
| "jwithin lo hi NaN = False"

section \<open>Strings\<close>

text \<open>
  \<open>String.prototype.toLowerCase\<close>, restricted to the ASCII letters: tags are modelled as
  byte strings, and a character outside \<open>A\<close>..\<open>Z\<close> is left as it is.
\<close>

definition lowerChar :: "char \<Rightarrow> char" where
  "lowerChar c =
     (let n = (of_char c :: nat)
      in if 65 \<le> n \<and> n \<le> 90 then char_of (n + 32) else c)"

definition toLowerCase :: "string \<Rightarrow> string" where
  "toLowerCase s = map lowerChar s"

section \<open>The Post model (src/models/Post.js)\<close>

text \<open>
  Identifiers (MongoDB ObjectIds) are natural numbers, dates are integer milliseconds since
  the epoch, and the counters are natural numbers (the schema gives them the minimum 0 and
  the methods change them by one). The populated author document and the edit history play
  no part in ranking and are left out; \<open>updatedAt\<close> likewise.
\<close>

record post =
  pid :: nat
  userId :: nat
  content :: string
  tags :: "string list"
  imageUrl :: string
  likes :: nat
  comments :: nat
  views :: nat
  shares :: nat
  isActive :: bool
  isEdited :: bool
  engagement :: real
  createdAt :: int

text \<open>
  The virtual \<open>hoursSinceCreation\<close> reads the clock when it is evaluated: \<open>now\<close> is that
  reading. The difference of two dates is an integer number of milliseconds, so the floor
  of the quotient is the floored integer division. There is no clamp: the value is negative
  when the post's creation time lies after \<open>now\<close>.
\<close>

definition hoursSinceCreation :: "int \<Rightarrow> post \<Rightarrow> int" where
  "hoursSinceCreation now p = (now - createdAt p) div (1000 * 60 * 60)"

definition updateEngagement :: "post \<Rightarrow> post" where
  "updateEngagement p =
     p\<lparr>engagement :=
         (real (likes p) + real (comments p) * 2 + real (shares p) * 3) / (real (views p) + 1)\<rparr>"

text \<open>
  \<open>incrementLikes\<close> and \<open>decrementLikes\<close> change the document in memory; the value returned
  here is the document that \<open>save\<close> then writes (the pre-save hook recomputes the
  engagement once more, which changes nothing).
\<close>

definition incrementLikes :: "post \<Rightarrow> post" where
  "incrementLikes p = updateEngagement (updateEngagement (p\<lparr>likes := likes p + 1\<rparr>))"

definition decrementLikes :: "post \<Rightarrow> post" where
  "decrementLikes p =
     updateEngagement
       (if 0 < likes p then updateEngagement (p\<lparr>likes := likes p - 1\<rparr>) else p)"

section \<open>The ranking engine (utils/ranking)\<close>

definition tagWeight :: real where "tagWeight = 4 / 10"
definition recencyWeight :: real where "recencyWeight = 3 / 10"
definition popularityWeight :: real where "popularityWeight = 3 / 10"

text \<open>
  An argument that is \<open>null\<close> or \<open>undefined\<close> is \<open>None\<close>; both early returns of the
  source are branches here.
\<close>

definition calculateTagScore :: "string list option \<Rightarrow> string list option \<Rightarrow> jsnum" where
  "calculateTagScore userLikedTags postTags =
     (case userLikedTags of
        None \<Rightarrow> Fin 0
      | Some ul \<Rightarrow>
          if length ul = 0 then Fin 0
          else (case postTags of
                  None \<Rightarrow> Fin 0
                | Some pt \<Rightarrow>
                    if length pt = 0 then Fin 0
                    else let matchingTags = filter (\<lambda>tag. toLowerCase tag \<in> set ul) pt
                         in jmul (jdiv (Fin (real (length matchingTags))) (Fin (real (length ul))))
                              (Fin tagWeight)))"

definition calculateRecencyScore :: "int \<Rightarrow> jsnum" where
  "calculateRecencyScore hours =
     jmul (jdiv (Fin 1) (Fin (real_of_int (hours + 1)))) (Fin recencyWeight)"

definition calculatePopularityScore :: "nat \<Rightarrow> nat \<Rightarrow> jsnum" where
  "calculatePopularityScore lks maxLikes =
     (if maxLikes = 0 then Fin 0
      else jmul (jdiv (jlog (Fin (real lks + 1))) (jlog (Fin (real maxLikes + 1))))
             (Fin popularityWeight))"

definition calculateRankingScore :: "int \<Rightarrow> post \<Rightarrow> string list \<Rightarrow> nat \<Rightarrow> jsnum" where
  "calculateRankingScore now p userLikedTags maxLikes =
     (let tagScore = calculateTagScore (Some userLikedTags) (Some (tags p));
          recencyScore = calculateRecencyScore (hoursSinceCreation now p);
          popularityScore = calculatePopularityScore (likes p) maxLikes
      in jadd (jadd tagScore recencyScore) popularityScore)"

section \<open>The stored collections\<close>

text \<open>
  The database is the Post collection and the Like collection, each in its stored order.
  One request reads one state of the database: writes that arrive between the queries of a
  request are outside this model, and so is a failing query (the \<open>catch\<close> branches that
  log, and turn a failure into a default or into status 500).
\<close>

record like =
  like_userId :: nat
  like_postId :: nat

record db =
  postColl :: "post list"
  likeColl :: "like list"

definition findById :: "nat \<Rightarrow> db \<Rightarrow> post option" where
  "findById i d = find (\<lambda>p. pid p = i) (postColl d)"

text \<open>\<open>save\<close> writes the document over the stored one with the same identifier.\<close>

definition save :: "post \<Rightarrow> db \<Rightarrow> db" where
  "save p d = d\<lparr>postColl := map (\<lambda>q. if pid q = pid p then p else q) (postColl d)\<rparr>"

text \<open>
  A JavaScript \<open>Set\<close> keeps its elements in insertion order, and \<open>Array.from\<close> lists them
  in that order.
\<close>

definition setAdd :: "'a list \<Rightarrow> 'a \<Rightarrow> 'a list" where
  "setAdd acc x = (if x \<in> set acc then acc else acc @ [x])"

text \<open>
  \<open>Like.find({ userId }).populate('postId', 'tags')\<close>: the user's likes, each with the liked
  post looked up (\<open>null\<close> when the post is gone), whatever the post's active flag.
\<close>

definition getUserLikedTags :: "nat \<Rightarrow> db \<Rightarrow> string list" where
  "getUserLikedTags uid d =
     (let userLikes = filter (\<lambda>l. like_userId l = uid) (likeColl d)
      in foldl (\<lambda>likedTags l.
                  case findById (like_postId l) d of
                    None \<Rightarrow> likedTags
                  | Some p \<Rightarrow> foldl (\<lambda>acc tag. setAdd acc (toLowerCase tag)) likedTags (tags p))
           [] userLikes)"

text \<open>
  \<open>Post.findOne({}, 'likes').sort({ likes: -1 })\<close>: the filter is empty, so the maximum is
  taken over every stored post, inactive ones included. A database sort is modelled as a
  stable sort of the stored order.
\<close>

definition getMaxLikes :: "db \<Rightarrow> nat" where
  "getMaxLikes d =
     (case sort_key (\<lambda>p. - int (likes p)) (postColl d) of
        [] \<Rightarrow> 0
      | maxLikesPost # _ \<Rightarrow> likes maxLikesPost)"

text \<open>
  \<open>Array.prototype.sort\<close> with a comparator: a stable sort, in which \<open>x\<close> moves behind \<open>y\<close>
  only where the comparator's value on \<open>(x, y)\<close> is greater than zero. For a comparator that
  is not consistent (one that returns NaN) the language leaves the order to the
  implementation; the model then still returns a permutation.
\<close>

fun insertCmp :: "('a \<Rightarrow> 'a \<Rightarrow> jsnum) \<Rightarrow> 'a \<Rightarrow> 'a list \<Rightarrow> 'a list" where
  "insertCmp cmp x [] = [x]"
| "insertCmp cmp x (y # ys) =
     (if jpos (cmp x y) then y # insertCmp cmp x ys else x # y # ys)"

definition jsSort :: "('a \<Rightarrow> 'a \<Rightarrow> jsnum) \<Rightarrow> 'a list \<Rightarrow> 'a list" where
  "jsSort cmp xs = foldr (insertCmp cmp) xs []"

text \<open>
  \<open>Array.prototype.slice\<close>: a negative index counts from the end, and both indices are
  clamped to the array.
\<close>

definition sliceIndex :: "nat \<Rightarrow> int \<Rightarrow> nat" where
  "sliceIndex len k = (if k < 0 then nat (max (int len + k) 0) else min (nat k) len)"

definition jsSlice :: "'a list \<Rightarrow> int \<Rightarrow> int \<Rightarrow> 'a list" where
  "jsSlice xs start fin =
     (let k = sliceIndex (length xs) start; e = sliceIndex (length xs) fin
      in take (e - k) (drop k xs))"

text \<open>
  A scored post is the post with its \<open>rankingScore\<close>; a feed item adds \<open>isLiked\<close> (the two
  object spreads of the source).
\<close>

record scored =
  entry :: post
  rankingScore :: jsnum

record feedItem = scored +
  isLiked :: bool

record feed =
  posts :: "feedItem list"
  hasMore :: bool
  totalCount :: nat
  pageNo :: int
  pageLimit :: int

text \<open>The candidate query: the active posts, newest first, at most 1000 of them.\<close>

definition candidates :: "db \<Rightarrow> post list" where
  "candidates d = take 1000 (sort_key (\<lambda>p. - createdAt p) (filter isActive (postColl d)))"

text \<open>The comparator of the ranking sort, \<open>(a, b) => b.rankingScore - a.rankingScore\<close>.\<close>

definition byScoreDesc :: "scored \<Rightarrow> scored \<Rightarrow> jsnum" where
  "byScoreDesc a b = jsub (rankingScore b) (rankingScore a)"

text \<open>The ranking pass: the candidates, scored and sorted.\<close>

definition rankedPosts :: "nat \<Rightarrow> int \<Rightarrow> db \<Rightarrow> scored list" where
  "rankedPosts uid now d =
     (let userLikedTags = getUserLikedTags uid d;
          maxLikes = getMaxLikes d;
          postsWithScores =
            map (\<lambda>p. \<lparr>entry = p, rankingScore = calculateRankingScore now p userLikedTags maxLikes\<rparr>)
              (candidates d)
      in jsSort byScoreDesc postsWithScores)"

text \<open>
  \<open>getPersonalizedFeed\<close>. The clock reading \<open>now\<close> is the one the virtual
  \<open>hoursSinceCreation\<close> takes while the posts are scored; the whole pass is taken to read
  the same instant.
\<close>

definition getPersonalizedFeed :: "nat \<Rightarrow> int \<Rightarrow> int \<Rightarrow> int \<Rightarrow> db \<Rightarrow> feed" where
  "getPersonalizedFeed uid page limit now d =
     (let skip = (page - 1) * limit;
          postsWithScores = rankedPosts uid now d;
          paginatedPosts = jsSlice postsWithScores skip (skip + limit);
          postIds = map (\<lambda>sp. pid (entry sp)) paginatedPosts;
          userLikes = filter (\<lambda>l. like_userId l = uid \<and> like_postId l \<in> set postIds) (likeColl d);
          likedPostIds = set (map like_postId userLikes);
          postsWithLikeStatus =
            map (\<lambda>sp. \<lparr>entry = entry sp, rankingScore = rankingScore sp,
                        isLiked = (pid (entry sp) \<in> likedPostIds)\<rparr>) paginatedPosts
      in \<lparr>posts = postsWithLikeStatus,
          hasMore = (skip + limit < int (length postsWithScores)),
          totalCount = length postsWithScores,
          pageNo = page,
          pageLimit = limit\<rparr>)"

section \<open>Query parameters\<close>

text \<open>
  \<open>parseInt\<close> with no radix: leading white space and one sign are skipped, a \<open>0x\<close> prefix
  selects base 16, and the longest run of digits is read; no digit at all gives NaN, which
  is \<open>None\<close> here. The result is an exact integer (the loss of precision beyond \<open>2^53\<close> is
  not modelled). White space is the ASCII white space.
\<close>

definition isWhiteSpace :: "char \<Rightarrow> bool" where
  "isWhiteSpace c = (of_char c \<in> {9, 10, 11, 12, 13, 32 :: nat})"

definition digitValue :: "nat \<Rightarrow> char \<Rightarrow> nat option" where
  "digitValue radix c =
     (let n = (of_char c :: nat);
          v = (if 48 \<le> n \<and> n \<le> 57 then Some (n - 48)
               else if 97 \<le> n \<and> n \<le> 102 then Some (n - 87)
               else if 65 \<le> n \<and> n \<le> 70 then Some (n - 55)
               else None)
      in case v of None \<Rightarrow> None | Some k \<Rightarrow> if k < radix then Some k else None)"

definition readDigits :: "nat \<Rightarrow> string \<Rightarrow> int option" where
  "readDigits radix s =
     (let z = takeWhile (\<lambda>c. digitValue radix c \<noteq> None) s
      in if z = [] then None
         else Some (foldl (\<lambda>acc c. acc * int radix + (case digitValue radix c of None \<Rightarrow> 0 | Some k \<Rightarrow> int k)) 0 z))"

definition parseInt :: "string \<Rightarrow> int option" where
  "parseInt inputString =
     (let s = dropWhile isWhiteSpace inputString;
          sign = (if s \<noteq> [] \<and> hd s = CHR ''-'' then - 1 else 1 :: int);
          s1 = (if s \<noteq> [] \<and> (hd s = CHR ''+'' \<or> hd s = CHR ''-'') then tl s else s);
          hex = (take 2 s1 = ''0x'' \<or> take 2 s1 = ''0X'');
          r = (if hex then readDigits 16 (drop 2 s1) else readDigits 10 s1)
      in case r of None \<Rightarrow> None | Some m \<Rightarrow> Some (sign * m))"

text \<open>
  A query parameter is absent (\<open>undefined\<close>, which \<open>parseInt\<close> reads as the string
  \<open>undefined\<close>) or a string.
\<close>

definition queryString :: "string option \<Rightarrow> string" where
  "queryString q = (case q of None \<Rightarrow> ''undefined'' | Some s \<Rightarrow> s)"

text \<open>\<open>parseInt(q) || dflt\<close>: NaN and zero are falsy, so both give the default.\<close>

definition orDefault :: "int option \<Rightarrow> int \<Rightarrow> int" where
  "orDefault v dflt = (case v of None \<Rightarrow> dflt | Some n \<Rightarrow> if n = 0 then dflt else n)"

section \<open>The routes (routes/posts)\<close>

text \<open>
  A handler answers with a JSON body (status 200) or with a status and an error message.
  The authentication middleware has run: \<open>uid\<close> is the requesting user. Path identifiers
  are well-formed ObjectIds. The repository holds two versions of the routes file; the
  handlers here are those of the version with the validation helpers. In the other version
  the feed handler is the same, and so are the like and unlike handlers but for the check
  of the active flag.
\<close>

datatype 'a response = Respond 'a | Fail nat string

definition feedHandler :: "nat \<Rightarrow> string option \<Rightarrow> string option \<Rightarrow> int \<Rightarrow> db \<Rightarrow> feed response" where
  "feedHandler uid pageParam limitParam now d =
     (let page = orDefault (parseInt (queryString pageParam)) 1;
          limit = orDefault (parseInt (queryString limitParam)) 10
      in if page < 1 \<or> limit < 1 \<or> limit > 50
         then Fail 400 ''Invalid pagination parameters''
         else Respond (getPersonalizedFeed uid page limit now d))"

record likeReply =
  message :: string
  likesReported :: int

definition likeHandler :: "nat \<Rightarrow> nat \<Rightarrow> db \<Rightarrow> likeReply response \<times> db" where
  "likeHandler uid postId d =
     (case findById postId d of
        None \<Rightarrow> (Fail 404 ''Post not found'', d)
      | Some p \<Rightarrow>
          if \<not> isActive p then (Fail 400 ''Cannot like inactive post'', d)
          else (case find (\<lambda>l. like_userId l = uid \<and> like_postId l = postId) (likeColl d) of
                  Some existingLike \<Rightarrow> (Fail 400 ''Post already liked'', d)
                | None \<Rightarrow>
                    let d1 = d\<lparr>likeColl := likeColl d @ [\<lparr>like_userId = uid, like_postId = postId\<rparr>]\<rparr>;
                        p1 = incrementLikes p;
                        d2 = save p1 d1
                    in (Respond \<lparr>message = ''Post liked successfully'',
                                 likesReported = int (likes p1) + 1\<rparr>, d2)))"

definition unlikeHandler :: "nat \<Rightarrow> nat \<Rightarrow> db \<Rightarrow> likeReply response \<times> db" where
  "unlikeHandler uid postId d =
     (case findById postId d of
        None \<Rightarrow> (Fail 404 ''Post not found'', d)
      | Some p \<Rightarrow>
          (case find (\<lambda>l. like_userId l = uid \<and> like_postId l = postId) (likeColl d) of
             None \<Rightarrow> (Fail 400 ''Post not liked'', d)
           | Some existingLike \<Rightarrow>
               let d1 = d\<lparr>likeColl := remove1 existingLike (likeColl d)\<rparr>;
                   p1 = decrementLikes p;
                   d2 = save p1 d1
               in (Respond \<lparr>message = ''Post unliked successfully'',
                            likesReported = max 0 (int (likes p1) - 1)\<rparr>, d2)))"

section \<open>Notions and data for the properties\<close>

text \<open>
  A stored post with the given identifier, creation time, like count, tags and active flag,
  and no other engagement.
\<close>

definition examplePost :: "nat \<Rightarrow> int \<Rightarrow> nat \<Rightarrow> string list \<Rightarrow> bool \<Rightarrow> post" where
  "examplePost i created lks tgs active =
     \<lparr>pid = i, userId = 0, content = ''post'', tags = tgs, imageUrl = [], likes = lks,
      comments = 0, views = 0, shares = 0, isActive = active, isEdited = False,
      engagement = real lks, createdAt = created\<rparr>"

text \<open>
  A database with no post and no like.
\<close>

definition emptyDb :: db where
  "emptyDb = \<lparr>postColl = [], likeColl = []\<rparr>"

text \<open>
  A database with one active post, number 1, holding the given number of likes; user 7
  has liked it or not.
\<close>

definition likedDb :: "nat \<Rightarrow> bool \<Rightarrow> db" where
  "likedDb lks liked =
     \<lparr>postColl = [examplePost 1 0 lks [] True],
      likeColl = (if liked then [\<lparr>like_userId = 7, like_postId = 1\<rparr>] else [])\<rparr>"

text \<open>
  The values a composite score can take: a finite number or \<open>Infinity\<close>.
\<close>

definition validScore :: "jsnum \<Rightarrow> bool" where
  "validScore s = (s \<noteq> NaN \<and> s \<noteq> NegInf)"

text \<open>
  Two active posts created in the same millisecond, number 2 stored before number 1.
\<close>

definition tieDb :: db where
  "tieDb = \<lparr>postColl = [examplePost 2 0 0 [] True, examplePost 1 0 0 [] True], likeColl = []\<rparr>"


text \<open>
  1001 active posts, stored newest first: post \<open>i\<close> was created at time \<open>-i\<close>.
\<close>

definition bigDb :: db where
  "bigDb = \<lparr>postColl = map (\<lambda>i. examplePost i (- int i) 0 [] True) [0..<1001], likeColl = []\<rparr>"

text \<open>
  An active post with 2 likes and an inactive post with 100 likes.
\<close>

definition staleDb :: db where
  "staleDb = \<lparr>postColl = [examplePost 10 0 2 [] True, examplePost 20 0 100 [] False], likeColl = []\<rparr>"

text \<open>
  The normalisation constant as the specification words it, for comparison with
  \<open>getMaxLikes\<close>: the maximum like count across the candidate pool, 0 for an empty pool.
\<close>

definition spec_poolMaxLikes :: "post list \<Rightarrow> nat" where
  "spec_poolMaxLikes pool = foldr (\<lambda>p m. max (likes p) m) pool 0"

section \<open>Properties of the scorer\<close>


lemma weighted_within:
  assumes "0 \<le> x" "x \<le> 1" "0 \<le> w"
  shows "jwithin 0 w (Fin (x * w))"
  using assms by (simp add: mult_left_le_one_le)

lemma tagScore_value:
  assumes "ul \<noteq> []"
  shows "calculateTagScore (Some ul) (Some pt) =
     Fin (real (length (filter (\<lambda>tag. toLowerCase tag \<in> set ul) pt)) / real (length ul) * tagWeight)"
  using assms by (cases "pt = []") (simp_all add: calculateTagScore_def)

lemma matching_le:
  assumes "distinct (map toLowerCase pt)"
  shows "length (filter (\<lambda>tag. toLowerCase tag \<in> set ul) pt) \<le> length ul"
proof -
  let ?m = "filter (\<lambda>tag. toLowerCase tag \<in> set ul) pt"
  have d: "distinct (map toLowerCase ?m)"
    using assms by (simp add: distinct_map_filter)
  have "length ?m = card (set (map toLowerCase ?m))"
    using d by (metis distinct_card length_map)
  also have "\<dots> \<le> card (set ul)"
    by (rule card_mono) auto
  also have "\<dots> \<le> length ul"
    by (rule card_length)
  finally show ?thesis .
qed

lemma tagScore_bounds:
  assumes "distinct (map toLowerCase pt)"
  shows "jwithin 0 tagWeight (calculateTagScore (Some ul) (Some pt))"
proof (cases "ul = []")
  case True
  then show ?thesis by (simp add: calculateTagScore_def tagWeight_def)
next
  case False
  let ?k = "length (filter (\<lambda>tag. toLowerCase tag \<in> set ul) pt)"
  have "real ?k / real (length ul) \<le> 1"
    using matching_le [OF assms, of ul] False by simp
  moreover have "0 \<le> real ?k / real (length ul)" by simp
  ultimately have "jwithin 0 tagWeight (Fin (real ?k / real (length ul) * tagWeight))"
    by (intro weighted_within) (simp_all add: tagWeight_def)
  then show ?thesis
    by (simp only: tagScore_value [OF False])
qed

lemma recency_value:
  assumes "0 \<le> h"
  shows "calculateRecencyScore h = Fin (1 / (real_of_int h + 1) * recencyWeight)"
  using assms by (simp add: calculateRecencyScore_def)

lemma recency_bounds:
  assumes "0 \<le> h"
  shows "jwithin 0 recencyWeight (calculateRecencyScore h)"
proof -
  have "1 / (real_of_int h + 1) \<le> 1" using assms by simp
  moreover have "0 \<le> 1 / (real_of_int h + 1)" using assms by simp
  ultimately have "jwithin 0 recencyWeight (Fin (1 / (real_of_int h + 1) * recencyWeight))"
    by (intro weighted_within) (simp_all add: recencyWeight_def)
  then show ?thesis
    by (simp only: recency_value [OF assms])
qed

lemma popularity_value:
  assumes "0 < maxLikes"
  shows "calculatePopularityScore lks maxLikes =
           Fin (ln (real lks + 1) / ln (real maxLikes + 1) * popularityWeight)"
proof -
  have "ln (real maxLikes + 1) \<noteq> 0" using assms by simp
  then show ?thesis using assms by (simp add: calculatePopularityScore_def)
qed

lemma popularity_bounds:
  assumes "lks \<le> maxLikes"
  shows "jwithin 0 popularityWeight (calculatePopularityScore lks maxLikes)"
proof (cases "maxLikes = 0")
  case True
  then show ?thesis by (simp add: calculatePopularityScore_def popularityWeight_def)
next
  case False
  have pos: "0 < ln (real maxLikes + 1)" using False by simp
  have "ln (real lks + 1) \<le> ln (real maxLikes + 1)" using assms by simp
  then have "ln (real lks + 1) / ln (real maxLikes + 1) \<le> 1" using pos by simp
  moreover have "0 \<le> ln (real lks + 1) / ln (real maxLikes + 1)" using pos by simp
  ultimately have "jwithin 0 popularityWeight
      (Fin (ln (real lks + 1) / ln (real maxLikes + 1) * popularityWeight))"
    by (intro weighted_within) (simp_all add: popularityWeight_def)
  moreover have "0 < maxLikes" using False by simp
  ultimately show ?thesis
    by (simp only: popularity_value)
qed

lemma jwithin_add:
  assumes "jwithin 0 a x" "jwithin 0 b y"
  shows "jwithin 0 (a + b) (jadd x y)"
  using assms by (cases x; cases y) auto

lemma hours_nonneg: "createdAt p \<le> now \<Longrightarrow> 0 \<le> hoursSinceCreation now p"
  by (simp add: hoursSinceCreation_def)

text \<open>
  Claim C1, as the code has it. There is no clamp on the age of a post. For a post that was
  not created after the clock reading, whose tags stay distinct when lower-cased, and whose
  like count does not exceed the normalisation maximum, the composite score is a finite
  number in \<open>[0, 1]\<close> and the recency term is a finite number in \<open>[0, 0.3]\<close>.
\<close>

theorem score_bounded:
  assumes "createdAt p \<le> now"
    and "distinct (map toLowerCase (tags p))"
    and "likes p \<le> maxLikes"
  shows "jwithin 0 1 (calculateRankingScore now p userLikedTags maxLikes)
       \<and> jwithin 0 (3 / 10) (calculateRecencyScore (hoursSinceCreation now p))"
proof -
  have t: "jwithin 0 tagWeight (calculateTagScore (Some userLikedTags) (Some (tags p)))"
    using assms(2) by (rule tagScore_bounds)
  have r: "jwithin 0 recencyWeight (calculateRecencyScore (hoursSinceCreation now p))"
    using assms(1) by (intro recency_bounds hours_nonneg)
  have q: "jwithin 0 popularityWeight (calculatePopularityScore (likes p) maxLikes)"
    using assms(3) by (rule popularity_bounds)
  have "jwithin 0 (tagWeight + recencyWeight + popularityWeight)
          (calculateRankingScore now p userLikedTags maxLikes)"
    unfolding calculateRankingScore_def Let_def
    by (intro jwithin_add t r q)
  then show ?thesis
    using r by (simp add: tagWeight_def recencyWeight_def popularityWeight_def)
qed


text \<open>
  The bound at a post that is 90 minutes old, with two tags which cover the user's one liked
  tag, and with the maximal like count: the hypotheses hold and the score is 0.85.
\<close>

theorem score_bounded_witness:
  "createdAt (examplePost 1 0 3 [''a'', ''b''] True) \<le> 5400000
   \<and> distinct (map toLowerCase (tags (examplePost 1 0 3 [''a'', ''b''] True)))
   \<and> likes (examplePost 1 0 3 [''a'', ''b''] True) \<le> 3
   \<and> jwithin 0 1 (calculateRankingScore 5400000 (examplePost 1 0 3 [''a'', ''b''] True) [''a''] 3)
   \<and> calculateRankingScore 5400000 (examplePost 1 0 3 [''a'', ''b''] True) [''a''] 3 = Fin (17 / 20)"
  using score_bounded [of "examplePost 1 0 3 [''a'', ''b''] True" 5400000 3 "[''a'']"]
  by (simp add: examplePost_def toLowerCase_def lowerChar_def calculateRankingScore_def
      calculateTagScore_def calculateRecencyScore_def calculatePopularityScore_def
      hoursSinceCreation_def tagWeight_def recencyWeight_def popularityWeight_def)

text \<open>
  Claim C1 fails as stated. A post created 30 minutes after the clock reading has
  \<open>hoursSinceCreation = -1\<close>, the division is \<open>1 / 0\<close>, and both the recency term and the
  score are \<open>Infinity\<close>; a post created two hours after the clock reading scores \<open>-0.3\<close>.
  The score also leaves \<open>[0, 1]\<close> for a post whose tags repeat after lower-casing (1.1
  here), and for a like count above the normalisation maximum.
\<close>

theorem score_unbounded_counterexample:
  "calculateRecencyScore (hoursSinceCreation 0 (examplePost 1 1800000 0 [] True)) = PosInf
   \<and> \<not> jwithin 0 1 (calculateRankingScore 0 (examplePost 1 1800000 0 [] True) [] 0)
   \<and> calculateRankingScore 0 (examplePost 1 7200000 0 [] True) [] 0 = Fin (- (3 / 10))
   \<and> calculateRankingScore 0 (examplePost 1 0 0 [''a'', ''A''] True) [''a''] 0 = Fin (11 / 10)
   \<and> \<not> jwithin 0 1 (calculateRankingScore 0 (examplePost 1 0 3 [''a''] True) [''a''] 1)"
proof -
  have a: "calculateRecencyScore (hoursSinceCreation 0 (examplePost 1 1800000 0 [] True)) = PosInf
   \<and> \<not> jwithin 0 1 (calculateRankingScore 0 (examplePost 1 1800000 0 [] True) [] 0)
   \<and> calculateRankingScore 0 (examplePost 1 7200000 0 [] True) [] 0 = Fin (- (3 / 10))"
    by (simp add: examplePost_def calculateRankingScore_def
      calculateTagScore_def calculateRecencyScore_def calculatePopularityScore_def
      hoursSinceCreation_def recencyWeight_def of_sign_def)
  have l: "toLowerCase ''A'' = ''a''" "toLowerCase ''a'' = ''a''"
    by code_simp+
  have b: "calculateRankingScore 0 (examplePost 1 0 0 [''a'', ''A''] True) [''a''] 0 = Fin (11 / 10)"
    by (simp add: examplePost_def calculateRankingScore_def
      calculateTagScore_def calculateRecencyScore_def calculatePopularityScore_def
      hoursSinceCreation_def recencyWeight_def tagWeight_def l)
  have v: "calculateRankingScore 0 (examplePost 1 0 3 [''a''] True) [''a''] 1
      = Fin (7 / 10 + ln 4 / ln 2 * (3 / 10))"
    by (simp add: examplePost_def calculateRankingScore_def
      calculateTagScore_def calculateRecencyScore_def calculatePopularityScore_def
      hoursSinceCreation_def recencyWeight_def tagWeight_def popularityWeight_def
      toLowerCase_def lowerChar_def)
  have "ln (2::real) < ln 4" by simp
  moreover have "0 < ln (2::real)" by simp
  ultimately have "1 < ln (4::real) / ln 2" by (simp only: less_divide_eq_1_pos)
  moreover have "\<not> 7 / 10 + x * (3 / 10) \<le> 1" if "1 < x" for x :: real
    using that by linarith
  ultimately have "\<not> 7 / 10 + ln 4 / ln 2 * (3 / 10) \<le> (1::real)" by blast
  then have c: "\<not> jwithin 0 1 (calculateRankingScore 0 (examplePost 1 0 3 [''a''] True) [''a''] 1)"
    by (simp only: v jwithin.simps) simp
  show ?thesis using a b c by blast
qed

text \<open>
  Claim C6. With a positive maximum the popularity term is
  \<open>log(likes + 1) / log(maxLikes + 1) * 0.3\<close>, and the denominator is not zero; with the
  maximum 0 the term is 0. The guard is what keeps the division away: evaluated at the
  maximum 0, the quotient would be NaN or \<open>Infinity\<close>.
\<close>

theorem popularity_term:
  "(0 < maxLikes \<longrightarrow>
      ln (real maxLikes + 1) \<noteq> 0
      \<and> calculatePopularityScore lks maxLikes
          = Fin (ln (real lks + 1) / ln (real maxLikes + 1) * (3 / 10)))
   \<and> calculatePopularityScore lks 0 = Fin 0
   \<and> jdiv (jlog (Fin (real lks + 1))) (jlog (Fin (real (0::nat) + 1)))
       = (if lks = 0 then NaN else PosInf)"
proof (intro conjI impI)
  assume "0 < maxLikes"
  then show "ln (real maxLikes + 1) \<noteq> 0" by simp
next
  assume "0 < maxLikes"
  then show "calculatePopularityScore lks maxLikes
          = Fin (ln (real lks + 1) / ln (real maxLikes + 1) * (3 / 10))"
    by (simp add: popularity_value popularityWeight_def)
next
  show "calculatePopularityScore lks 0 = Fin 0"
    by (simp add: calculatePopularityScore_def)
next
  show "jdiv (jlog (Fin (real lks + 1))) (jlog (Fin (real (0::nat) + 1)))
       = (if lks = 0 then NaN else PosInf)"
    by (simp add: of_sign_def)
qed

text \<open>
  A post that holds the maximum of 7 likes: the term is the full weight.
\<close>

theorem popularity_term_witness:
  "(0::nat) < 7 \<and> ln (real (7::nat) + 1) \<noteq> 0
   \<and> calculatePopularityScore 7 7 = Fin (3 / 10)
   \<and> calculatePopularityScore 7 0 = Fin 0"
  using popularity_term [of 7 7] by simp

text \<open>
  Claim C5. For duplicate-free tag lists and lower-case post tags, the tag-match term is
  \<open>|item.tags \<inter> profile.tags| / |profile.tags| * 0.4\<close> when the profile is not empty,
  and it is 0 when the profile or the post's tag list is empty or missing. The result is
  always a finite number: no division by zero takes place.
\<close>

theorem tag_match_term:
  assumes "distinct ul" and "distinct pt" and "\<forall>t\<in>set pt. toLowerCase t = t"
  shows "(ul \<noteq> [] \<longrightarrow>
            calculateTagScore (Some ul) (Some pt)
              = Fin (real (card (set pt \<inter> set ul)) / real (card (set ul)) * (4 / 10)))
       \<and> (ul = [] \<or> pt = [] \<longrightarrow> calculateTagScore (Some ul) (Some pt) = Fin 0)
       \<and> calculateTagScore None (Some pt) = Fin 0
       \<and> calculateTagScore (Some ul) None = Fin 0"
proof -
  have f: "filter (\<lambda>tag. toLowerCase tag \<in> set ul) pt = filter (\<lambda>tag. tag \<in> set ul) pt"
    using assms(3) by (intro filter_cong) auto
  have "length (filter (\<lambda>tag. tag \<in> set ul) pt) = card ({t. t \<in> set ul} \<inter> set pt)"
    using assms(2) by (rule distinct_length_filter)
  also have "{t. t \<in> set ul} \<inter> set pt = set pt \<inter> set ul" by auto
  finally have k: "length (filter (\<lambda>tag. toLowerCase tag \<in> set ul) pt) = card (set pt \<inter> set ul)"
    by (simp only: f)
  have n: "length ul = card (set ul)"
    using assms(1) by (simp add: distinct_card)
  have a: "ul \<noteq> [] \<longrightarrow>
            calculateTagScore (Some ul) (Some pt)
              = Fin (real (card (set pt \<inter> set ul)) / real (card (set ul)) * (4 / 10))"
    by (simp add: tagScore_value k n tagWeight_def)
  have b: "ul = [] \<or> pt = [] \<longrightarrow> calculateTagScore (Some ul) (Some pt) = Fin 0"
    by (auto simp: calculateTagScore_def)
  have c: "calculateTagScore None (Some pt) = Fin 0" "calculateTagScore (Some ul) None = Fin 0"
    by (simp_all add: calculateTagScore_def)
  show ?thesis using a b c by blast
qed

text \<open>
  A profile of two tags and a post with three tags, one of them shared: the term is
  \<open>1/2 * 0.4\<close>.
\<close>

theorem tag_match_term_witness:
  "distinct [''news'', ''art''] \<and> distinct [''art'', ''cats'', ''jazz'']
   \<and> map toLowerCase [''art'', ''cats'', ''jazz''] = [''art'', ''cats'', ''jazz'']
   \<and> [''news'', ''art''] \<noteq> []
   \<and> calculateTagScore (Some [''news'', ''art'']) (Some [''art'', ''cats'', ''jazz'']) = Fin (1 / 5)
   \<and> calculateTagScore (Some []) (Some [''art'', ''cats'', ''jazz'']) = Fin 0
   \<and> calculateTagScore (Some [''news'', ''art'']) (Some []) = Fin 0"
proof -
  have h: "distinct [''news'', ''art'']" "distinct [''art'', ''cats'', ''jazz'']"
    "\<forall>t\<in>set [''art'', ''cats'', ''jazz'']. toLowerCase t = t"
    by (simp_all add: toLowerCase_def lowerChar_def)
  have h0: "distinct ([]::string list)" "\<forall>t\<in>set ([]::string list). toLowerCase t = t" by simp_all
  have i: "set [''art'', ''cats'', ''jazz''] \<inter> set [''news'', ''art''] = {''art''}" by auto
  show ?thesis
    using h tag_match_term [OF h] tag_match_term [OF h0(1) h(2) h(3)]
      tag_match_term [OF h(1) h0]
    by (simp add: i)
qed

section \<open>Properties of the routes\<close>

lemma parse_examples:
  "parseInt ''abc'' = None" "parseInt ''0'' = Some 0" "parseInt ''undefined'' = None"
  "parseInt ''2abc'' = Some 2" "parseInt ''51'' = Some 51" "parseInt ''-3'' = Some (- 3)"
  "parseInt ''25'' = Some 25"
  by code_simp+

lemma rankedPosts_empty: "rankedPosts uid now emptyDb = []"
  by (simp add: rankedPosts_def candidates_def emptyDb_def jsSort_def)

lemma feed_empty:
  "getPersonalizedFeed uid page limit now emptyDb =
     \<lparr>posts = [], hasMore = ((page - 1) * limit + limit < 0), totalCount = 0, pageNo = page, pageLimit = limit\<rparr>"
  by (simp add: getPersonalizedFeed_def rankedPosts_empty jsSlice_def Let_def)

text \<open>
  Claim C8, as the code has it. The feed handler answers 400 with
  \<open>Invalid pagination parameters\<close>, whatever the database holds, when the limit parameter
  parses to a non-zero integer outside 1..50. It accepts a limit that parses to an integer
  within 1..50, and it replaces a limit that does not parse by the default 10, in both cases
  provided the page is at least 1.
\<close>

theorem page_size_validation:
  "(parseInt (queryString limitParam) = Some n \<and> n \<noteq> 0 \<and> (n < 1 \<or> 50 < n) \<longrightarrow>
      feedHandler uid pageParam limitParam now d = Fail 400 ''Invalid pagination parameters'')
   \<and> (parseInt (queryString limitParam) = Some n \<and> 1 \<le> n \<and> n \<le> 50
        \<and> 1 \<le> orDefault (parseInt (queryString pageParam)) 1 \<longrightarrow>
      feedHandler uid pageParam limitParam now d =
        Respond (getPersonalizedFeed uid (orDefault (parseInt (queryString pageParam)) 1) n now d))
   \<and> (parseInt (queryString limitParam) = None
        \<and> 1 \<le> orDefault (parseInt (queryString pageParam)) 1 \<longrightarrow>
      feedHandler uid pageParam limitParam now d =
        Respond (getPersonalizedFeed uid (orDefault (parseInt (queryString pageParam)) 1) 10 now d))"
  by (auto simp: feedHandler_def orDefault_def Let_def)

text \<open>
  The limits 51 and -3 are rejected, 25 is accepted, and an absent limit is served with 10.
\<close>

theorem page_size_validation_witness:
  "feedHandler 7 None (Some ''51'') 0 emptyDb = Fail 400 ''Invalid pagination parameters''
   \<and> feedHandler 7 None (Some ''-3'') 0 emptyDb = Fail 400 ''Invalid pagination parameters''
   \<and> feedHandler 7 None (Some ''25'') 0 emptyDb = Respond (getPersonalizedFeed 7 1 25 0 emptyDb)
   \<and> feedHandler 7 None None 0 emptyDb = Respond (getPersonalizedFeed 7 1 10 0 emptyDb)"
  using page_size_validation [of "Some ''51''" 51 7 None 0 emptyDb]
    page_size_validation [of "Some ''-3''" "- 3" 7 None 0 emptyDb]
    page_size_validation [of "Some ''25''" 25 7 None 0 emptyDb]
    page_size_validation [of None 0 7 None 0 emptyDb]
  by (simp add: queryString_def parse_examples orDefault_def)

text \<open>
  Claim C8 fails as stated: the requested page sizes \<open>0\<close> and \<open>abc\<close> are not rejected.
  Both are falsy after \<open>parseInt\<close>, so the default 10 takes their place.
\<close>

theorem page_size_counterexample:
  "feedHandler 7 None (Some ''0'') 0 emptyDb =
     Respond \<lparr>posts = [], hasMore = False, totalCount = 0, pageNo = 1, pageLimit = 10\<rparr>
   \<and> feedHandler 7 None (Some ''abc'') 0 emptyDb =
     Respond \<lparr>posts = [], hasMore = False, totalCount = 0, pageNo = 1, pageLimit = 10\<rparr>"
  by (simp add: feedHandler_def queryString_def parse_examples orDefault_def feed_empty)

lemma digit_not_space: "digitValue 10 c \<noteq> None \<Longrightarrow> \<not> isWhiteSpace c"
  by (auto simp: digitValue_def isWhiteSpace_def Let_def split: if_splits)

lemma sign_no_digit: "digitValue 10 (CHR ''-'') = None" "digitValue 10 (CHR ''+'') = None"
  by code_simp+

lemma zero_digit: "digitValue 10 (CHR ''0'') = Some 0"
  by code_simp

lemma digits_value_mono:
  "(a::int) \<le> foldl (\<lambda>acc c. acc * int 10 + (case digitValue 10 c of None \<Rightarrow> 0 | Some k \<Rightarrow> int k)) a cs"
  if "0 \<le> a"
  using that
proof (induction cs arbitrary: a)
  case Nil
  show ?case by simp
next
  case (Cons c cs)
  let ?b = "a * int 10 + (case digitValue 10 c of None \<Rightarrow> 0 | Some k \<Rightarrow> int k)"
  have d: "0 \<le> (case digitValue 10 c of None \<Rightarrow> (0::int) | Some k \<Rightarrow> int k)"
    by (cases "digitValue 10 c") simp_all
  have "a \<le> ?b" using Cons.prems d by simp
  moreover have "0 \<le> ?b" using Cons.prems d by simp
  then have "?b \<le> foldl (\<lambda>acc c. acc * int 10 + (case digitValue 10 c of None \<Rightarrow> 0 | Some k \<Rightarrow> int k)) ?b cs"
    by (rule Cons.IH)
  ultimately show ?case by simp
qed

lemma takeWhile_digits:
  assumes "\<forall>c\<in>set ds. digitValue 10 c \<noteq> None"
    and "case rest of [] \<Rightarrow> True | c # cs \<Rightarrow> digitValue 10 c = None"
  shows "takeWhile (\<lambda>c. digitValue 10 c \<noteq> None) (ds @ rest) = ds"
proof -
  have "takeWhile (\<lambda>c. digitValue 10 c \<noteq> None) rest = []"
    using assms(2) by (cases rest) simp_all
  then show ?thesis
    using assms(1) by (simp add: takeWhile_append2)
qed

lemma parseInt_leading_digits:
  assumes "ds \<noteq> []" and "\<forall>c\<in>set ds. digitValue 10 c \<noteq> None"
    and "digitValue 10 (hd ds) \<noteq> Some 0"
    and "case rest of [] \<Rightarrow> True | c # cs \<Rightarrow> digitValue 10 c = None"
  shows "\<exists>n. 1 \<le> n \<and> parseInt (ds @ rest) = Some n \<and> parseInt ds = Some n"
proof -
  obtain c cs where ds: "ds = c # cs" using assms(1) by (cases ds) auto
  have c: "digitValue 10 c \<noteq> None" using assms(2) ds by simp
  then obtain k where k: "digitValue 10 c = Some k" by blast
  have k1: "1 \<le> k" using assms(3) k ds by simp
  have sp: "\<not> isWhiteSpace c" using c by (rule digit_not_space)
  have sg: "c \<noteq> CHR ''-''" "c \<noteq> CHR ''+''" "c \<noteq> CHR ''0''"
    using c k k1 sign_no_digit zero_digit by auto
  let ?v = "foldl (\<lambda>acc c. acc * int 10 + (case digitValue 10 c of None \<Rightarrow> 0 | Some k \<Rightarrow> int k)) 0 ds"
  have rd: "readDigits 10 (ds @ r) = Some ?v"
    if "case r of [] \<Rightarrow> True | c # cs \<Rightarrow> digitValue 10 c = None" for r
    using takeWhile_digits [OF assms(2) that] assms(1) by (simp add: readDigits_def Let_def)
  have p: "parseInt (ds @ r) = Some ?v"
    if "case r of [] \<Rightarrow> True | c # cs \<Rightarrow> digitValue 10 c = None" for r
  proof -
    have "parseInt (ds @ r) = (case readDigits 10 (ds @ r) of None \<Rightarrow> None | Some m \<Rightarrow> Some (1 * m))"
      using sp sg by (simp add: parseInt_def Let_def ds)
    then show ?thesis by (simp add: rd [OF that])
  qed
  have "int k \<le> foldl (\<lambda>acc c. acc * int 10 + (case digitValue 10 c of None \<Rightarrow> 0 | Some k \<Rightarrow> int k)) (int k) cs"
    by (rule digits_value_mono) simp
  then have v: "1 \<le> ?v" using k1 by (simp add: ds k)
  have "parseInt (ds @ rest) = Some ?v" by (rule p [OF assms(4)])
  moreover have "parseInt ds = Some ?v" using p [of "[]"] by simp
  ultimately show ?thesis using v by blast
qed

text \<open>
  Claim C7, as the code has it. The feed has no cursor: the position is the \<open>page\<close>
  query parameter, read with \<open>parseInt(page) || 1\<close>. A token that \<open>parseInt\<close> reads as NaN
  is answered exactly as a request without a token is. A token that parses to a negative
  integer is answered 400. When the limit in effect, \<open>parseInt(limit) || 10\<close>, lies within
  1..50, a token that parses to an integer \<open>n\<close> from 1 on is served page \<open>n\<close>, and a request
  without a token is served page 1. A token that starts with decimal digits, the first of
  them not 0, parses to the integer these digits parse to, which is at least 1, whatever
  follows them (nothing, or first a character that is no decimal digit), and it is
  answered as the digits alone are.
\<close>

theorem page_token_handling:
  "(parseInt tok = None \<longrightarrow>
      feedHandler uid (Some tok) limitParam now d = feedHandler uid None limitParam now d)
   \<and> (parseInt tok = Some n \<and> n < 0 \<longrightarrow>
      feedHandler uid (Some tok) limitParam now d = Fail 400 ''Invalid pagination parameters'')
   \<and> (parseInt tok = Some n \<and> 1 \<le> n
        \<and> 1 \<le> orDefault (parseInt (queryString limitParam)) 10
        \<and> orDefault (parseInt (queryString limitParam)) 10 \<le> 50 \<longrightarrow>
      feedHandler uid (Some tok) limitParam now d =
        Respond (getPersonalizedFeed uid n (orDefault (parseInt (queryString limitParam)) 10) now d))
   \<and> (ds \<noteq> [] \<and> (\<forall>c\<in>set ds. digitValue 10 c \<noteq> None) \<and> digitValue 10 (hd ds) \<noteq> Some 0
        \<and> (case rest of [] \<Rightarrow> True | c # cs \<Rightarrow> digitValue 10 c = None) \<longrightarrow>
      (\<exists>m. 1 \<le> m \<and> parseInt (ds @ rest) = Some m \<and> parseInt ds = Some m)
      \<and> feedHandler uid (Some (ds @ rest)) limitParam now d
          = feedHandler uid (Some ds) limitParam now d)
   \<and> (1 \<le> orDefault (parseInt (queryString limitParam)) 10
        \<and> orDefault (parseInt (queryString limitParam)) 10 \<le> 50 \<longrightarrow>
      feedHandler uid None limitParam now d =
        Respond (getPersonalizedFeed uid 1 (orDefault (parseInt (queryString limitParam)) 10) now d))"
proof -
  have u: "parseInt ''undefined'' = None" by code_simp
  have a: "parseInt tok = None \<longrightarrow>
      feedHandler uid (Some tok) limitParam now d = feedHandler uid None limitParam now d"
    by (auto simp: feedHandler_def orDefault_def Let_def queryString_def u)
  have b: "parseInt tok = Some n \<and> n < 0 \<longrightarrow>
      feedHandler uid (Some tok) limitParam now d = Fail 400 ''Invalid pagination parameters''"
    by (auto simp: feedHandler_def orDefault_def Let_def queryString_def)
  have c: "parseInt tok = Some n \<and> 1 \<le> n
        \<and> 1 \<le> orDefault (parseInt (queryString limitParam)) 10
        \<and> orDefault (parseInt (queryString limitParam)) 10 \<le> 50 \<longrightarrow>
      feedHandler uid (Some tok) limitParam now d =
        Respond (getPersonalizedFeed uid n (orDefault (parseInt (queryString limitParam)) 10) now d)"
    by (auto simp: feedHandler_def orDefault_def Let_def queryString_def)
  have e: "ds \<noteq> [] \<and> (\<forall>c\<in>set ds. digitValue 10 c \<noteq> None) \<and> digitValue 10 (hd ds) \<noteq> Some 0
        \<and> (case rest of [] \<Rightarrow> True | c # cs \<Rightarrow> digitValue 10 c = None) \<longrightarrow>
      (\<exists>m. 1 \<le> m \<and> parseInt (ds @ rest) = Some m \<and> parseInt ds = Some m)
      \<and> feedHandler uid (Some (ds @ rest)) limitParam now d
          = feedHandler uid (Some ds) limitParam now d"
  proof (intro impI, elim conjE)
    assume h: "ds \<noteq> []" "\<forall>c\<in>set ds. digitValue 10 c \<noteq> None" "digitValue 10 (hd ds) \<noteq> Some 0"
      "case rest of [] \<Rightarrow> True | c # cs \<Rightarrow> digitValue 10 c = None"
    from parseInt_leading_digits [OF h]
    obtain m where m: "1 \<le> m" "parseInt (ds @ rest) = Some m" "parseInt ds = Some m" by blast
    have "feedHandler uid (Some (ds @ rest)) limitParam now d
          = feedHandler uid (Some ds) limitParam now d"
      by (simp add: feedHandler_def queryString_def m)
    then show "(\<exists>m. 1 \<le> m \<and> parseInt (ds @ rest) = Some m \<and> parseInt ds = Some m)
      \<and> feedHandler uid (Some (ds @ rest)) limitParam now d
          = feedHandler uid (Some ds) limitParam now d"
      using m by blast
  qed
  have f: "1 \<le> orDefault (parseInt (queryString limitParam)) 10
        \<and> orDefault (parseInt (queryString limitParam)) 10 \<le> 50 \<longrightarrow>
      feedHandler uid None limitParam now d =
        Respond (getPersonalizedFeed uid 1 (orDefault (parseInt (queryString limitParam)) 10) now d)"
    by (auto simp: feedHandler_def orDefault_def Let_def queryString_def u)
  show ?thesis using a b c e f by blast
qed

text \<open>
  The tokens \<open>abc\<close> (served as no token is), \<open>-3\<close> (rejected) and \<open>2abc\<close> (page 2, as the
  token \<open>2\<close> is), with no limit given, and the request without a token (page 1).
\<close>

theorem page_token_handling_witness:
  "parseInt ''abc'' = None
   \<and> feedHandler 7 (Some ''abc'') None 0 emptyDb = feedHandler 7 None None 0 emptyDb
   \<and> parseInt ''-3'' = Some (- 3)
   \<and> feedHandler 7 (Some ''-3'') None 0 emptyDb = Fail 400 ''Invalid pagination parameters''
   \<and> parseInt ''2abc'' = Some 2
   \<and> orDefault (parseInt (queryString None)) 10 = 10
   \<and> feedHandler 7 (Some ''2abc'') None 0 emptyDb = Respond (getPersonalizedFeed 7 2 10 0 emptyDb)
   \<and> digitValue 10 (CHR ''2'') = Some 2 \<and> digitValue 10 (CHR ''a'') = None
   \<and> feedHandler 7 (Some (''2'' @ ''abc'')) None 0 emptyDb = feedHandler 7 (Some ''2'') None 0 emptyDb
   \<and> feedHandler 7 None None 0 emptyDb = Respond (getPersonalizedFeed 7 1 10 0 emptyDb)"
proof -
  have dg: "digitValue 10 (CHR ''2'') = Some 2" "digitValue 10 (CHR ''a'') = None"
    by code_simp+
  have lim: "orDefault (parseInt (queryString None)) 10 = 10"
    by (simp add: queryString_def parse_examples orDefault_def)
  note t1 = page_token_handling [where tok = "''abc''" and uid = 7 and limitParam = None
      and now = 0 and d = emptyDb and n = 0 and ds = "''2''" and rest = "''abc''"]
  note t2 = page_token_handling [where tok = "''-3''" and uid = 7 and limitParam = None
      and now = 0 and d = emptyDb and n = "- 3" and ds = "''2''" and rest = "''abc''"]
  note t3 = page_token_handling [where tok = "''2abc''" and uid = 7 and limitParam = None
      and now = 0 and d = emptyDb and n = 2 and ds = "''2''" and rest = "''abc''"]
  have a: "feedHandler 7 (Some ''abc'') None 0 emptyDb = feedHandler 7 None None 0 emptyDb"
    using t1 by (simp add: parse_examples)
  have b: "feedHandler 7 (Some ''-3'') None 0 emptyDb = Fail 400 ''Invalid pagination parameters''"
    using t2 by (simp add: parse_examples)
  have c: "feedHandler 7 (Some ''2abc'') None 0 emptyDb = Respond (getPersonalizedFeed 7 2 10 0 emptyDb)"
    using t3 by (simp add: parse_examples lim)
  have e: "feedHandler 7 (Some (''2'' @ ''abc'')) None 0 emptyDb = feedHandler 7 (Some ''2'') None 0 emptyDb"
    using t3 by (simp add: dg)
  have f: "feedHandler 7 None None 0 emptyDb = Respond (getPersonalizedFeed 7 1 10 0 emptyDb)"
    using t3 by (simp add: lim)
  show ?thesis
    using a b c e f dg lim parse_examples(1,4,6) by blast
qed

text \<open>
  Claim C7 fails as stated: the unparseable token \<open>abc\<close> is accepted as page 1 and the
  tampered token \<open>2abc\<close> as page 2, both with status 200.
\<close>

theorem malformed_token_counterexample:
  "feedHandler 7 (Some ''abc'') None 0 emptyDb =
     Respond \<lparr>posts = [], hasMore = False, totalCount = 0, pageNo = 1, pageLimit = 10\<rparr>
   \<and> feedHandler 7 (Some ''2abc'') None 0 emptyDb =
     Respond \<lparr>posts = [], hasMore = False, totalCount = 0, pageNo = 2, pageLimit = 10\<rparr>"
  by (simp add: feedHandler_def queryString_def parse_examples orDefault_def feed_empty)

lemma find_save:
  "find (\<lambda>q. pid q = pid p1) (map (\<lambda>q. if pid q = pid p1 then p1 else q) xs) =
     (case find (\<lambda>q. pid q = pid p1) xs of None \<Rightarrow> None | Some q \<Rightarrow> Some p1)"
  by (induction xs) auto

lemma findById_pid: "findById i d = Some p \<Longrightarrow> pid p = i"
  by (auto simp: findById_def find_Some_iff)

lemma findById_save:
  assumes "findById i d = Some p" and "pid p1 = pid p" and "postColl d1 = postColl d"
  shows "findById i (save p1 d1) = Some p1"
proof -
  have i: "i = pid p1" using assms(1,2) findById_pid by simp
  have "find (\<lambda>q. pid q = pid p1) (postColl d) = Some p"
    using assms(1) by (simp add: findById_def i)
  then have "find (\<lambda>q. pid q = pid p1) (map (\<lambda>q. if pid q = pid p1 then p1 else q) (postColl d)) = Some p1"
    by (simp only: find_save option.case)
  then show ?thesis
    by (simp add: findById_def save_def assms(3) i)
qed

lemma incrementLikes_fields: "pid (incrementLikes p) = pid p" "likes (incrementLikes p) = likes p + 1"
  by (simp_all add: incrementLikes_def updateEngagement_def)

lemma decrementLikes_fields: "pid (decrementLikes p) = pid p" "likes (decrementLikes p) = likes p - 1"
  by (simp_all add: decrementLikes_def updateEngagement_def)

lemma like_success:
  assumes "likeHandler uid i d = (Respond r, d')"
  shows "\<exists>p. findById i d = Some p \<and> findById i d' = Some (incrementLikes p)
           \<and> likesReported r = int (likes (incrementLikes p)) + 1"
proof -
  obtain p where p: "findById i d = Some p"
    using assms by (cases "findById i d") (auto simp: likeHandler_def)
  have r: "r = \<lparr>message = ''Post liked successfully'', likesReported = int (likes (incrementLikes p)) + 1\<rparr>"
    and d': "d' = save (incrementLikes p) (d\<lparr>likeColl := likeColl d @ [\<lparr>like_userId = uid, like_postId = i\<rparr>]\<rparr>)"
    using assms p by (auto simp: likeHandler_def Let_def split: if_splits option.splits)
  have "findById i d' = Some (incrementLikes p)"
    unfolding d' by (rule findById_save [OF p]) (simp_all add: incrementLikes_fields)
  then show ?thesis using p r by simp
qed

lemma unlike_success:
  assumes "unlikeHandler uid i d = (Respond r, d')"
  shows "\<exists>p. findById i d = Some p \<and> findById i d' = Some (decrementLikes p)
           \<and> likesReported r = max 0 (int (likes (decrementLikes p)) - 1)"
proof -
  obtain p where p: "findById i d = Some p"
    using assms by (cases "findById i d") (auto simp: unlikeHandler_def)
  obtain l where l: "find (\<lambda>l. like_userId l = uid \<and> like_postId l = i) (likeColl d) = Some l"
    using assms p by (auto simp: unlikeHandler_def split: option.splits)
  have r: "r = \<lparr>message = ''Post unliked successfully'', likesReported = max 0 (int (likes (decrementLikes p)) - 1)\<rparr>"
    and d': "d' = save (decrementLikes p) (d\<lparr>likeColl := remove1 l (likeColl d)\<rparr>)"
    using assms p l by (auto simp: unlikeHandler_def Let_def)
  have "findById i d' = Some (decrementLikes p)"
    unfolding d' by (rule findById_save [OF p]) (simp_all add: decrementLikes_fields)
  then show ?thesis using p r by simp
qed

text \<open>
  Claim C9. A successful like stores the old count plus one and reports the stored count
  plus one. A successful unlike stores the old count minus one (not below zero) and reports
  the stored count minus one, not below zero; when the post had at least two likes, this is
  one less than the stored count. In these cases the reported count differs from the
  stored one.
\<close>

theorem like_count_reported:
  "(likeHandler uid i d = (Respond r, d') \<longrightarrow>
      (\<exists>p p'. findById i d = Some p \<and> findById i d' = Some p'
         \<and> likes p' = likes p + 1
         \<and> likesReported r = int (likes p') + 1
         \<and> likesReported r \<noteq> int (likes p')))
   \<and> (unlikeHandler uid i d = (Respond r, d') \<longrightarrow>
      (\<exists>p p'. findById i d = Some p \<and> findById i d' = Some p'
         \<and> likes p' = likes p - 1
         \<and> likesReported r = max 0 (int (likes p') - 1)
         \<and> (2 \<le> likes p \<longrightarrow>
               likesReported r = int (likes p') - 1 \<and> likesReported r \<noteq> int (likes p'))))"
proof (intro conjI impI)
  assume "likeHandler uid i d = (Respond r, d')"
  from like_success [OF this] show "\<exists>p p'. findById i d = Some p \<and> findById i d' = Some p'
         \<and> likes p' = likes p + 1 \<and> likesReported r = int (likes p') + 1
         \<and> likesReported r \<noteq> int (likes p')"
    by (auto simp: incrementLikes_fields)
next
  assume "unlikeHandler uid i d = (Respond r, d')"
  from unlike_success [OF this] show "\<exists>p p'. findById i d = Some p \<and> findById i d' = Some p'
         \<and> likes p' = likes p - 1
         \<and> likesReported r = max 0 (int (likes p') - 1)
         \<and> (2 \<le> likes p \<longrightarrow>
               likesReported r = int (likes p') - 1 \<and> likesReported r \<noteq> int (likes p'))"
    by (auto simp: decrementLikes_fields)
qed

text \<open>
  A post with 3 likes: the like stores 4 and reports 5, the unlike stores 2 and reports 1.
\<close>

theorem like_count_reported_witness:
  "fst (likeHandler 7 1 (likedDb 3 False)) =
     Respond \<lparr>message = ''Post liked successfully'', likesReported = 5\<rparr>
   \<and> map likes (postColl (snd (likeHandler 7 1 (likedDb 3 False)))) = [4]
   \<and> fst (unlikeHandler 7 1 (likedDb 3 True)) =
     Respond \<lparr>message = ''Post unliked successfully'', likesReported = 1\<rparr>
   \<and> map likes (postColl (snd (unlikeHandler 7 1 (likedDb 3 True)))) = [2]"
proof -
  have a: "likeHandler 7 1 (likedDb 3 False) =
      (Respond \<lparr>message = ''Post liked successfully'', likesReported = 5\<rparr>,
       \<lparr>postColl = [incrementLikes (examplePost 1 0 3 [] True)],
        likeColl = [\<lparr>like_userId = 7, like_postId = 1\<rparr>]\<rparr>)"
    by (simp add: likeHandler_def likedDb_def findById_def examplePost_def save_def
        incrementLikes_def updateEngagement_def)
  have b: "unlikeHandler 7 1 (likedDb 3 True) =
      (Respond \<lparr>message = ''Post unliked successfully'', likesReported = 1\<rparr>,
       \<lparr>postColl = [decrementLikes (examplePost 1 0 3 [] True)], likeColl = []\<rparr>)"
    by (simp add: unlikeHandler_def likedDb_def findById_def examplePost_def save_def
        decrementLikes_def updateEngagement_def)
  note t1 = like_count_reported [THEN conjunct1, rule_format, OF a]
  note t2 = like_count_reported [THEN conjunct2, rule_format, OF b]
  from t1 t2 show ?thesis
    unfolding a b by (simp add: incrementLikes_fields decrementLikes_fields examplePost_def)
qed

section \<open>Properties of the ranking pass\<close>

subsection \<open>The comparator sort\<close>

lemma mset_insertCmp: "mset (insertCmp c x ys) = add_mset x (mset ys)"
  by (induction ys) simp_all

lemma mset_jsSort: "mset (jsSort c xs) = mset xs"
  unfolding jsSort_def by (induction xs) (simp_all add: mset_insertCmp)

lemma set_jsSort: "set (jsSort c xs) = set xs"
  by (metis mset_jsSort set_mset_mset)

lemma length_jsSort: "length (jsSort c xs) = length xs"
  by (metis mset_jsSort size_mset)

lemma filter_insertCmp:
  assumes "\<And>y. y \<in> set ys \<Longrightarrow> jpos (c x y) \<Longrightarrow> \<not> (P x \<and> P y)"
  shows "filter P (insertCmp c x ys) = (if P x then x # filter P ys else filter P ys)"
  using assms by (induction ys) auto

lemma filter_jsSort:
  assumes "\<And>x y. jpos (c x y) \<Longrightarrow> \<not> (P x \<and> P y)"
  shows "filter P (jsSort c xs) = filter P xs"
proof (induction xs)
  case Nil
  show ?case by (simp add: jsSort_def)
next
  case (Cons x xs)
  have "filter P (jsSort c (x # xs)) = filter P (insertCmp c x (jsSort c xs))"
    by (simp add: jsSort_def)
  also have "\<dots> = (if P x then x # filter P (jsSort c xs) else filter P (jsSort c xs))"
    by (rule filter_insertCmp) (rule assms)
  finally show ?case using Cons.IH by simp
qed

lemma jpos_jsub:
  assumes "validScore a" "validScore b"
  shows "jpos (jsub b a) = jless a b"
  using assms by (cases a; cases b) (simp_all add: validScore_def jpos_def jsub_def)

lemma jless_irrefl: "\<not> jless a a"
  by (cases a) simp_all

lemma jless_asym: "jless a b \<Longrightarrow> \<not> jless b a"
  by (cases a; cases b) simp_all

lemma jless_negtrans:
  assumes "validScore a" "validScore b" "validScore c"
    and "\<not> jless a b" "\<not> jless b c"
  shows "\<not> jless a c"
  using assms by (cases a; cases b; cases c) (simp_all add: validScore_def)

lemma set_insertCmp: "set (insertCmp c x ys) = insert x (set ys)"
  by (metis mset_insertCmp set_mset_add_mset_insert set_mset_mset)

lemma sorted_insertCmp:
  assumes "sorted_wrt (\<lambda>a b. \<not> jless (rankingScore a) (rankingScore b)) ys"
    and "validScore (rankingScore x)"
    and "\<And>y. y \<in> set ys \<Longrightarrow> validScore (rankingScore y)"
  shows "sorted_wrt (\<lambda>a b. \<not> jless (rankingScore a) (rankingScore b)) (insertCmp byScoreDesc x ys)"
  using assms
proof (induction ys)
  case Nil
  show ?case by simp
next
  case (Cons y ys)
  have vy: "validScore (rankingScore y)" using Cons.prems(3) by simp
  have c: "jpos (byScoreDesc x y) = jless (rankingScore x) (rankingScore y)"
    unfolding byScoreDesc_def by (rule jpos_jsub [OF Cons.prems(2) vy])
  show ?case
  proof (cases "jless (rankingScore x) (rankingScore y)")
    case True
    have "sorted_wrt (\<lambda>a b. \<not> jless (rankingScore a) (rankingScore b)) (insertCmp byScoreDesc x ys)"
      using Cons.prems by (intro Cons.IH) auto
    moreover have "\<not> jless (rankingScore y) (rankingScore x)"
      using True by (rule jless_asym)
    ultimately show ?thesis
      using True c Cons.prems(1) by (auto simp: set_insertCmp)
  next
    case False
    have "\<not> jless (rankingScore x) (rankingScore z)" if "z \<in> set ys" for z
    proof (rule jless_negtrans [OF Cons.prems(2) vy _ False])
      show "validScore (rankingScore z)" using that Cons.prems(3) by simp
      show "\<not> jless (rankingScore y) (rankingScore z)" using that Cons.prems(1) by simp
    qed
    then show ?thesis
      using False c Cons.prems(1) by auto
  qed
qed

lemma sorted_jsSort:
  assumes "\<And>x. x \<in> set xs \<Longrightarrow> validScore (rankingScore x)"
  shows "sorted_wrt (\<lambda>a b. \<not> jless (rankingScore a) (rankingScore b)) (jsSort byScoreDesc xs)"
  using assms
proof (induction xs)
  case Nil
  show ?case by (simp add: jsSort_def)
next
  case (Cons x xs)
  have "sorted_wrt (\<lambda>a b. \<not> jless (rankingScore a) (rankingScore b))
          (insertCmp byScoreDesc x (jsSort byScoreDesc xs))"
    using Cons by (intro sorted_insertCmp) (auto simp: set_jsSort)
  then show ?case by (simp add: jsSort_def)
qed

lemma byScoreDesc_tie:
  assumes "jpos (byScoreDesc x y)"
  shows "rankingScore x \<noteq> rankingScore y"
proof
  assume "rankingScore x = rankingScore y"
  then have "byScoreDesc x y = jsub (rankingScore x) (rankingScore x)"
    by (simp add: byScoreDesc_def)
  then show False
    using assms by (cases "rankingScore x") (simp_all add: jsub_def jpos_def)
qed

subsection \<open>Scores are never NaN\<close>

lemma tagScore_Fin: "\<exists>x. calculateTagScore a b = Fin x"
  by (cases a; cases b) (auto simp: calculateTagScore_def Let_def)

lemma recency_cases:
  "calculateRecencyScore h =
     (if h + 1 = 0 then PosInf else Fin (1 / real_of_int (h + 1) * recencyWeight))"
  by (simp add: calculateRecencyScore_def of_sign_def recencyWeight_def)

lemma popularity_Fin: "\<exists>x. calculatePopularityScore lks m = Fin x"
  by (cases "m = 0") (simp_all add: calculatePopularityScore_def popularity_value)

lemma validScore_ranking: "validScore (calculateRankingScore now p ul m)"
proof -
  obtain t where t: "calculateTagScore (Some ul) (Some (tags p)) = Fin t"
    using tagScore_Fin by blast
  obtain q where q: "calculatePopularityScore (likes p) m = Fin q"
    using popularity_Fin by blast
  show ?thesis
    by (simp add: calculateRankingScore_def t q recency_cases validScore_def)
qed

lemma rankedPosts_eq:
  "rankedPosts uid now d =
     jsSort byScoreDesc
       (map (\<lambda>p. \<lparr>entry = p,
                   rankingScore = calculateRankingScore now p (getUserLikedTags uid d) (getMaxLikes d)\<rparr>)
          (candidates d))"
  by (simp add: rankedPosts_def Let_def)

lemma entries_rankedPosts: "mset (map entry (rankedPosts uid now d)) = mset (candidates d)"
proof -
  have "mset (map entry (rankedPosts uid now d)) = image_mset entry (mset (rankedPosts uid now d))"
    by simp
  also have "\<dots> = mset (map entry
       (map (\<lambda>p. \<lparr>entry = p,
                   rankingScore = calculateRankingScore now p (getUserLikedTags uid d) (getMaxLikes d)\<rparr>)
          (candidates d)))"
    by (simp only: rankedPosts_eq mset_jsSort mset_map)
  also have "\<dots> = mset (candidates d)"
    by (simp add: comp_def)
  finally show ?thesis .
qed

lemma length_rankedPosts: "length (rankedPosts uid now d) = length (candidates d)"
  by (simp add: rankedPosts_eq length_jsSort)

lemma score_rankedPosts:
  assumes "e \<in> set (rankedPosts uid now d)"
  shows "rankingScore e = calculateRankingScore now (entry e) (getUserLikedTags uid d) (getMaxLikes d)"
  using assms by (auto simp: rankedPosts_eq set_jsSort)

lemma sorted_candidates: "sorted (map (\<lambda>p. - createdAt p) (candidates d))"
proof -
  have "sorted (map (\<lambda>p. - createdAt p) (sort_key (\<lambda>p. - createdAt p) (filter isActive (postColl d))))"
    by (rule sorted_sort_key)
  then show ?thesis
    unfolding candidates_def take_map [symmetric] by (rule sorted_wrt_take)
qed

text \<open>
  Claim C3, as the code has it. The comparator of the ranking pass reads the score only.
  The ranked list is a permutation of the candidates, no entry is followed by one with a
  greater score, and entries with the same score keep the order of the candidate query,
  which is creation time descending (the sort is stable). The identifier is no sort key.
\<close>

theorem ranking_order:
  "mset (map entry (rankedPosts uid now d)) = mset (candidates d)
   \<and> sorted_wrt (\<lambda>a b. \<not> jless (rankingScore a) (rankingScore b)) (rankedPosts uid now d)
   \<and> filter (\<lambda>e. rankingScore e = s) (rankedPosts uid now d) =
       filter (\<lambda>e. rankingScore e = s)
         (map (\<lambda>p. \<lparr>entry = p,
                     rankingScore = calculateRankingScore now p (getUserLikedTags uid d) (getMaxLikes d)\<rparr>)
            (candidates d))
   \<and> sorted (map (\<lambda>p. - createdAt p) (candidates d))"
proof (intro conjI)
  show "mset (map entry (rankedPosts uid now d)) = mset (candidates d)"
    by (rule entries_rankedPosts)
  show "sorted_wrt (\<lambda>a b. \<not> jless (rankingScore a) (rankingScore b)) (rankedPosts uid now d)"
    unfolding rankedPosts_eq by (rule sorted_jsSort) (auto simp: validScore_ranking)
  show "filter (\<lambda>e. rankingScore e = s) (rankedPosts uid now d) =
       filter (\<lambda>e. rankingScore e = s)
         (map (\<lambda>p. \<lparr>entry = p,
                     rankingScore = calculateRankingScore now p (getUserLikedTags uid d) (getMaxLikes d)\<rparr>)
            (candidates d))"
    unfolding rankedPosts_eq by (rule filter_jsSort) (auto dest: byScoreDesc_tie)
  show "sorted (map (\<lambda>p. - createdAt p) (candidates d))"
    by (rule sorted_candidates)
qed

lemma tieDb_inputs:
  "getUserLikedTags 7 tieDb = []" "getMaxLikes tieDb = 0"
  "candidates tieDb = [examplePost 2 0 0 [] True, examplePost 1 0 0 [] True]"
  by (simp_all add: tieDb_def getUserLikedTags_def getMaxLikes_def candidates_def examplePost_def)

lemma tie_scores:
  "calculateRankingScore 1800000 (examplePost i 0 0 [] True) [] 0 = Fin (3 / 10)"
  by (simp add: examplePost_def calculateRankingScore_def
      calculateTagScore_def calculateRecencyScore_def calculatePopularityScore_def
      hoursSinceCreation_def recencyWeight_def)

text \<open>
  Claim C3 fails as stated. Two distinct posts with the same score and the same creation
  time tie under the comparator, and they are ranked in their stored order: number 2 before
  number 1, not by ascending identifier.
\<close>

theorem ranking_tie_counterexample:
  "rankedPosts 7 1800000 tieDb =
     [\<lparr>entry = examplePost 2 0 0 [] True, rankingScore = Fin (3 / 10)\<rparr>,
      \<lparr>entry = examplePost 1 0 0 [] True, rankingScore = Fin (3 / 10)\<rparr>]
   \<and> byScoreDesc \<lparr>entry = examplePost 2 0 0 [] True, rankingScore = Fin (3 / 10)\<rparr>
        \<lparr>entry = examplePost 1 0 0 [] True, rankingScore = Fin (3 / 10)\<rparr> = Fin 0
   \<and> examplePost 2 0 0 [] True \<noteq> examplePost 1 0 0 [] True"
  by (simp add: rankedPosts_eq tieDb_inputs tie_scores jsSort_def byScoreDesc_def jsub_def jpos_def)
    (simp add: examplePost_def)

section \<open>Properties of a scroll\<close>

subsection \<open>Slices and pages\<close>


lemma set_jsSlice: "set (jsSlice xs start fin) \<subseteq> set xs"
proof -
  have "set (jsSlice xs start fin) \<subseteq> set (drop (sliceIndex (length xs) start) xs)"
    unfolding jsSlice_def Let_def by (rule set_take_subset)
  also have "\<dots> \<subseteq> set xs" by (rule set_drop_subset)
  finally show ?thesis .
qed

lemma feed_entries:
  "map entry (posts (getPersonalizedFeed uid page limit now d)) =
     map entry (jsSlice (rankedPosts uid now d) ((page - 1) * limit) ((page - 1) * limit + limit))"
  by (simp add: getPersonalizedFeed_def Let_def comp_def)

lemma feed_hasMore:
  "hasMore (getPersonalizedFeed uid page limit now d) =
     ((page - 1) * limit + limit < int (length (candidates d)))"
  by (simp add: getPersonalizedFeed_def Let_def length_rankedPosts)

lemma feed_total:
  "totalCount (getPersonalizedFeed uid page limit now d) = length (candidates d)"
  by (simp add: getPersonalizedFeed_def Let_def length_rankedPosts)















section \<open>Properties of the candidate pool\<close>

subsection \<open>The cap on the candidate pool\<close>

lemma length_candidates: "length (candidates d) = min 1000 (length (filter isActive (postColl d)))"
  by (simp add: candidates_def min.commute)

lemma candidates_active: "set (candidates d) \<subseteq> set (filter isActive (postColl d))"
proof -
  have "set (candidates d) \<subseteq> set (sort_key (\<lambda>p. - createdAt p) (filter isActive (postColl d)))"
    unfolding candidates_def by (rule set_take_subset)
  then show ?thesis by simp
qed

lemma outside_candidates_older:
  assumes "p \<in> set (filter isActive (postColl d))" and "p \<notin> set (candidates d)"
    and "q \<in> set (candidates d)"
  shows "createdAt p \<le> createdAt q"
proof -
  let ?L = "sort_key (\<lambda>p. - createdAt p) (filter isActive (postColl d))"
  have "set ?L = set (take 1000 ?L) \<union> set (drop 1000 ?L)"
    by (metis append_take_drop_id set_append)
  moreover have "p \<in> set ?L" using assms(1) by simp
  moreover have "p \<notin> set (take 1000 ?L)" using assms(2) by (simp add: candidates_def)
  ultimately have p: "p \<in> set (drop 1000 ?L)" by blast
  have q: "q \<in> set (take 1000 ?L)"
    using assms(3) by (simp add: candidates_def)
  have "sorted (map (\<lambda>p. - createdAt p) (take 1000 ?L @ drop 1000 ?L))"
    by (simp only: append_take_drop_id sorted_sort_key)
  then have "- createdAt q \<le> - createdAt p"
    using p q by (simp only: map_append sorted_append) (simp only: set_map, blast)
  then show ?thesis by simp
qed

lemma served_candidates:
  "set (map entry (posts (getPersonalizedFeed uid page limit now d))) \<subseteq> set (candidates d)"
proof -
  have "set (map entry (posts (getPersonalizedFeed uid page limit now d)))
          = entry ` set (jsSlice (rankedPosts uid now d) ((page - 1) * limit) ((page - 1) * limit + limit))"
    by (simp only: feed_entries set_map)
  also have "\<dots> \<subseteq> entry ` set (rankedPosts uid now d)"
    by (rule image_mono) (rule set_jsSlice)
  also have "\<dots> = set (map entry (rankedPosts uid now d))" by simp
  also have "\<dots> = set (candidates d)"
    by (metis entries_rankedPosts set_mset_mset)
  finally show ?thesis .
qed

text \<open>
  Claim C10. The ranking pass sees the candidates only: at most 1000 posts, the newest
  active ones. The reported total is the size of this pool, which is the number of active
  posts capped at 1000; every served post is a candidate; \<open>hasMore\<close> compares the end of
  the page with that total, so with more than 1000 active posts the total is 1000 and
  \<open>hasMore\<close> is false from the 1000th ranked item on. An active post outside the pool is
  on no page, and it is no newer than any candidate.
\<close>

theorem feed_capped:
  "totalCount (getPersonalizedFeed uid page limit now d)
      = min 1000 (length (filter isActive (postColl d)))
   \<and> set (map entry (posts (getPersonalizedFeed uid page limit now d))) \<subseteq> set (candidates d)
   \<and> length (candidates d) \<le> 1000
   \<and> hasMore (getPersonalizedFeed uid page limit now d)
      = ((page - 1) * limit + limit < int (min 1000 (length (filter isActive (postColl d)))))
   \<and> (1000 < length (filter isActive (postColl d)) \<longrightarrow>
        totalCount (getPersonalizedFeed uid page limit now d) = 1000
        \<and> (1000 \<le> (page - 1) * limit + limit \<longrightarrow>
              \<not> hasMore (getPersonalizedFeed uid page limit now d)))
   \<and> (\<forall>p\<in>set (filter isActive (postColl d)) - set (candidates d).
        p \<notin> set (map entry (posts (getPersonalizedFeed uid page limit now d)))
        \<and> (\<forall>q\<in>set (candidates d). createdAt p \<le> createdAt q))"
proof -
  let ?F = "getPersonalizedFeed uid page limit now d"
  have a: "totalCount ?F = min 1000 (length (filter isActive (postColl d)))"
    by (simp only: feed_total length_candidates)
  have b: "set (map entry (posts ?F)) \<subseteq> set (candidates d)"
    by (rule served_candidates)
  have c: "length (candidates d) \<le> 1000"
    by (simp add: length_candidates)
  have e: "hasMore ?F
      = ((page - 1) * limit + limit < int (min 1000 (length (filter isActive (postColl d)))))"
    by (simp only: feed_hasMore length_candidates)
  have f: "1000 < length (filter isActive (postColl d)) \<longrightarrow>
        totalCount ?F = 1000 \<and> (1000 \<le> (page - 1) * limit + limit \<longrightarrow> \<not> hasMore ?F)"
    unfolding a e by simp
  have g: "\<forall>p\<in>set (filter isActive (postColl d)) - set (candidates d).
        p \<notin> set (map entry (posts ?F)) \<and> (\<forall>q\<in>set (candidates d). createdAt p \<le> createdAt q)"
    using b outside_candidates_older by blast
  show ?thesis using a b c e f g by blast
qed

lemma bigDb_active: "filter isActive (postColl bigDb) = postColl bigDb"
  by (simp add: bigDb_def examplePost_def)

lemma bigDb_candidates:
  "candidates bigDb = map (\<lambda>i. examplePost i (- int i) 0 [] True) [0..<1000]"
proof -
  have "sorted (map (\<lambda>p. - createdAt p) (postColl bigDb))"
    by (simp add: bigDb_def examplePost_def comp_def sorted_map)
  then have "sort_key (\<lambda>p. - createdAt p) (postColl bigDb) = postColl bigDb"
    by (rule sort_key_id_if_sorted)
  then show ?thesis
    by (simp add: candidates_def bigDb_active) (simp add: bigDb_def take_map)
qed

text \<open>
  1001 active posts: the total is 1000, page 100 of size 10 reports no more, and the oldest
  post is active, outside the pool and not on that page.
\<close>

theorem feed_capped_witness:
  "1000 < length (filter isActive (postColl bigDb))
   \<and> totalCount (getPersonalizedFeed 7 100 10 0 bigDb) = 1000
   \<and> \<not> hasMore (getPersonalizedFeed 7 100 10 0 bigDb)
   \<and> examplePost 1000 (- 1000) 0 [] True \<in> set (filter isActive (postColl bigDb))
   \<and> examplePost 1000 (- 1000) 0 [] True \<notin> set (candidates bigDb)
   \<and> examplePost 1000 (- 1000) 0 [] True
        \<notin> set (map entry (posts (getPersonalizedFeed 7 100 10 0 bigDb)))"
proof -
  have h1: "1000 < length (filter isActive (postColl bigDb))"
    by (simp add: bigDb_active) (simp add: bigDb_def)
  have "(\<lambda>i. examplePost i (- int i) 0 [] True) 1000
          \<in> (\<lambda>i. examplePost i (- int i) 0 [] True) ` set [0..<1001]"
    by (rule imageI) simp
  then have h2: "examplePost 1000 (- 1000) 0 [] True \<in> set (filter isActive (postColl bigDb))"
    by (simp add: bigDb_active) (simp add: bigDb_def)
  have h3: "examplePost 1000 (- 1000) 0 [] True \<notin> set (candidates bigDb)"
    by (auto simp: bigDb_candidates examplePost_def)
  note t = feed_capped [of 7 100 10 0 bigDb]
  have a: "totalCount (getPersonalizedFeed 7 100 10 0 bigDb) = 1000
      \<and> \<not> hasMore (getPersonalizedFeed 7 100 10 0 bigDb)"
    using t h1 by simp
  have b: "examplePost 1000 (- 1000) 0 [] True
        \<notin> set (map entry (posts (getPersonalizedFeed 7 100 10 0 bigDb)))"
    using t h2 h3 by blast
  show ?thesis using h1 h2 h3 a b by blast
qed

subsection \<open>The normalisation maximum\<close>

lemma getMaxLikes_ge:
  assumes "p \<in> set (postColl d)"
  shows "likes p \<le> getMaxLikes d"
proof -
  let ?f = "\<lambda>p. - int (likes p)"
  let ?L = "sort_key ?f (postColl d)"
  have p: "p \<in> set ?L" using assms by simp
  then obtain y ys where L: "?L = y # ys" by (cases ?L) auto
  have "sorted (map ?f ?L)" by (rule sorted_sort_key)
  then have "\<forall>x\<in>set ys. ?f y \<le> ?f x" unfolding L by simp
  then have "likes p \<le> likes y" using p unfolding L by auto
  moreover have "getMaxLikes d = likes y" by (simp add: getMaxLikes_def L)
  ultimately show ?thesis by simp
qed

lemma getMaxLikes_attained:
  assumes "postColl d \<noteq> []"
  shows "\<exists>p. p \<in> set (postColl d) \<and> getMaxLikes d = likes p"
proof -
  let ?L = "sort_key (\<lambda>p. - int (likes p)) (postColl d)"
  have "length ?L = length (postColl d)" by simp
  then have "?L \<noteq> []" using assms by (metis length_0_conv)
  then obtain y ys where L: "?L = y # ys" by (cases ?L) auto
  have "y \<in> set ?L" unfolding L by simp
  then have "y \<in> set (postColl d)" by simp
  moreover have "getMaxLikes d = likes y" by (simp add: getMaxLikes_def L)
  ultimately show ?thesis by blast
qed

lemma spec_poolMaxLikes_le:
  assumes "\<And>p. p \<in> set pool \<Longrightarrow> likes p \<le> m"
  shows "spec_poolMaxLikes pool \<le> m"
  using assms unfolding spec_poolMaxLikes_def by (induction pool) auto

lemma candidates_stored: "set (candidates d) \<subseteq> set (postColl d)"
  using candidates_active by fastforce

text \<open>
  Claim C4, as the code has it. \<open>getMaxLikes\<close> is a query of its own over every stored
  post: its value is at least the like count of every stored post, it is the like count
  of some stored post (0 when there is none), and it is the maximum every candidate of the
  pass is scored with. It is therefore an upper bound of the like counts in the candidate
  pool, and of the pool's own maximum, but it need not be that maximum.
\<close>

theorem normalization_source:
  "(\<forall>p\<in>set (postColl d). likes p \<le> getMaxLikes d)
   \<and> (postColl d \<noteq> [] \<longrightarrow> (\<exists>p. p \<in> set (postColl d) \<and> getMaxLikes d = likes p))
   \<and> (postColl d = [] \<longrightarrow> getMaxLikes d = 0)
   \<and> (\<forall>e\<in>set (rankedPosts uid now d).
         rankingScore e =
           calculateRankingScore now (entry e) (getUserLikedTags uid d) (getMaxLikes d))
   \<and> (\<forall>p\<in>set (candidates d). likes p \<le> getMaxLikes d)
   \<and> spec_poolMaxLikes (candidates d) \<le> getMaxLikes d"
proof -
  have a: "\<forall>p\<in>set (postColl d). likes p \<le> getMaxLikes d"
    using getMaxLikes_ge by blast
  have b: "postColl d \<noteq> [] \<longrightarrow> (\<exists>p. p \<in> set (postColl d) \<and> getMaxLikes d = likes p)"
    using getMaxLikes_attained by blast
  have c: "postColl d = [] \<longrightarrow> getMaxLikes d = 0"
    by (simp add: getMaxLikes_def)
  have e: "\<forall>e\<in>set (rankedPosts uid now d).
         rankingScore e =
           calculateRankingScore now (entry e) (getUserLikedTags uid d) (getMaxLikes d)"
    using score_rankedPosts by blast
  have f: "\<forall>p\<in>set (candidates d). likes p \<le> getMaxLikes d"
    using a candidates_stored by blast
  have g: "spec_poolMaxLikes (candidates d) \<le> getMaxLikes d"
    using f by (intro spec_poolMaxLikes_le) blast
  show ?thesis using a b c e f g by blast
qed

lemma staleDb_inputs:
  "getUserLikedTags 7 staleDb = []" "getMaxLikes staleDb = 100"
  "candidates staleDb = [examplePost 10 0 2 [] True]"
  by (simp_all add: staleDb_def getUserLikedTags_def getMaxLikes_def candidates_def examplePost_def)

lemma staleDb_ranked:
  "rankedPosts 7 0 staleDb =
     [\<lparr>entry = examplePost 10 0 2 [] True,
       rankingScore = calculateRankingScore 0 (examplePost 10 0 2 [] True) [] 100\<rparr>]"
  by (simp add: rankedPosts_eq staleDb_inputs jsSort_def)

text \<open>
  A database with one active and one inactive post, and the empty database.
\<close>

theorem normalization_source_witness:
  "examplePost 10 0 2 [] True \<in> set (postColl staleDb)
   \<and> examplePost 10 0 2 [] True \<in> set (candidates staleDb)
   \<and> likes (examplePost 10 0 2 [] True) \<le> getMaxLikes staleDb
   \<and> postColl staleDb \<noteq> []
   \<and> (\<exists>p. p \<in> set (postColl staleDb) \<and> getMaxLikes staleDb = likes p)
   \<and> postColl emptyDb = [] \<and> getMaxLikes emptyDb = 0
   \<and> map rankingScore (rankedPosts 7 0 staleDb)
        = [calculateRankingScore 0 (examplePost 10 0 2 [] True) (getUserLikedTags 7 staleDb)
             (getMaxLikes staleDb)]"
proof -
  have h1: "examplePost 10 0 2 [] True \<in> set (postColl staleDb)"
    by (simp add: staleDb_def)
  have h2: "examplePost 10 0 2 [] True \<in> set (candidates staleDb)"
    by (simp add: staleDb_inputs)
  have h3: "postColl staleDb \<noteq> []" by (simp add: staleDb_def)
  have h4: "postColl emptyDb = []" by (simp add: emptyDb_def)
  have h5: "\<lparr>entry = examplePost 10 0 2 [] True,
       rankingScore = calculateRankingScore 0 (examplePost 10 0 2 [] True) [] 100\<rparr>
      \<in> set (rankedPosts 7 0 staleDb)"
    by (simp add: staleDb_ranked)
  note t = normalization_source [of staleDb 7 0]
  note u = normalization_source [of emptyDb 7 0]
  have a: "likes (examplePost 10 0 2 [] True) \<le> getMaxLikes staleDb"
    using t h1 by blast
  have b: "\<exists>p. p \<in> set (postColl staleDb) \<and> getMaxLikes staleDb = likes p"
    using t h3 by blast
  have c: "getMaxLikes emptyDb = 0"
    using u h4 by blast
  have "rankingScore \<lparr>entry = examplePost 10 0 2 [] True,
       rankingScore = calculateRankingScore 0 (examplePost 10 0 2 [] True) [] 100\<rparr>
     = calculateRankingScore 0 (examplePost 10 0 2 [] True) (getUserLikedTags 7 staleDb)
             (getMaxLikes staleDb)"
    using t h5 by (auto simp only: scored.simps)
  then have e: "map rankingScore (rankedPosts 7 0 staleDb)
        = [calculateRankingScore 0 (examplePost 10 0 2 [] True) (getUserLikedTags 7 staleDb)
             (getMaxLikes staleDb)]"
    by (simp add: staleDb_ranked)
  show ?thesis using h1 h2 h3 h4 a b c e by blast
qed

text \<open>
  Claim C4 fails as stated. The only candidate has 2 likes, so the maximum across the
  candidate pool is 2; the pass scores it with the maximum 100, which comes from an
  inactive post, and the score differs from the one the pool's maximum gives.
\<close>

theorem normalization_counterexample:
  "getMaxLikes staleDb = 100
   \<and> map likes (candidates staleDb) = [2]
   \<and> spec_poolMaxLikes (candidates staleDb) = 2
   \<and> map rankingScore (rankedPosts 7 0 staleDb)
        = [calculateRankingScore 0 (examplePost 10 0 2 [] True) [] 100]
   \<and> calculateRankingScore 0 (examplePost 10 0 2 [] True) [] 100
        \<noteq> calculateRankingScore 0 (examplePost 10 0 2 [] True) [] 2"
proof -
  have v100: "calculateRankingScore 0 (examplePost 10 0 2 [] True) [] 100
      = Fin (3 / 10 + ln 3 / ln 101 * (3 / 10))"
    by (simp add: examplePost_def calculateRankingScore_def
      calculateTagScore_def calculateRecencyScore_def calculatePopularityScore_def
      hoursSinceCreation_def recencyWeight_def popularityWeight_def)
  have v2: "calculateRankingScore 0 (examplePost 10 0 2 [] True) [] 2 = Fin (3 / 5)"
    by (simp add: examplePost_def calculateRankingScore_def
      calculateTagScore_def calculateRecencyScore_def calculatePopularityScore_def
      hoursSinceCreation_def recencyWeight_def popularityWeight_def)
  have "ln (3::real) \<noteq> ln 101" by simp
  then have ne: "ln (3::real) / ln 101 \<noteq> 1" by simp
  have lin: "x = 1" if "3 / 10 + x * (3 / 10) = (3 / 5 :: real)" for x
    using that by linarith
  have "3 / 10 + ln 3 / ln 101 * (3 / 10) \<noteq> (3 / 5 :: real)"
  proof
    assume "3 / 10 + ln 3 / ln 101 * (3 / 10) = (3 / 5 :: real)"
    then have "ln (3::real) / ln 101 = 1" by (rule lin)
    then show False using ne by (rule notE [rotated])
  qed
  then have "Fin (3 / 10 + ln 3 / ln 101 * (3 / 10)) \<noteq> Fin (3 / 5)"
    by (simp only: jsnum.inject not_False_eq_True)
  then have "calculateRankingScore 0 (examplePost 10 0 2 [] True) [] 100
        \<noteq> calculateRankingScore 0 (examplePost 10 0 2 [] True) [] 2"
    by (simp only: v100 v2 not_False_eq_True)
  then show ?thesis
    by (simp add: staleDb_inputs staleDb_ranked spec_poolMaxLikes_def) (simp add: examplePost_def)
qed

end
